theory Spec2Isabelle
  imports Complex_Main "HOL-Library.Log_Nat"
begin

section \<open>The SEIR simulation core of \<^verbatim>\<open>SEIR.py\<close>\<close>

text \<open>
  The numeric core of the program consists of three functions: \<^verbatim>\<open>euler\<close>, the fixed-step
  integrator, \<^verbatim>\<open>SEIR_model\<close>, which builds the derivative function of the four-compartment
  model, and \<^verbatim>\<open>SEIR_simulation\<close>, which puts the two together. They are embedded twice.
  The first embedding evaluates the formulas of the source in exact arithmetic: a number is a
  \<^typ>\<open>real\<close>. It serves the properties that are about exact arithmetic or that do not
  depend on rounding. The second embedding evaluates them as Python does, in IEEE binary64
  arithmetic with rounding to nearest, infinities and NaN. Python exceptions are values of a
  sum type.
\<close>

subsection \<open>Python numbers\<close>

datatype py_error = ZeroDivisionError | OverflowError | ValueError

text \<open>\<^verbatim>\<open>a / b\<close> on Python numbers raises when the divisor is zero.\<close>

definition py_truediv :: "real \<Rightarrow> real \<Rightarrow> py_error + real" where
  "py_truediv a b = (if b = 0 then Inl ZeroDivisionError else Inr (a / b))"

text \<open>\<^verbatim>\<open>int(r)\<close> on a float truncates towards zero.\<close>

definition py_int :: "real \<Rightarrow> int" where
  "py_int r = (if 0 \<le> r then \<lfloor>r\<rfloor> else \<lceil>r\<rceil>)"

text \<open>\<^verbatim>\<open>range(a, b)\<close> enumerates the integers from \<open>a\<close> up to \<open>b - 1\<close>; it is empty when
  \<open>b \<le> a\<close>.\<close>

definition py_range :: "int \<Rightarrow> int \<Rightarrow> int list" where
  "py_range a b = [a..b - 1]"

subsection \<open>State vectors\<close>

text \<open>
  The state of the model is a numpy array of four floats, unpacked in the source as
  \<^verbatim>\<open>S, E, I, R = x\<close>. Addition of two arrays and multiplication of an array by a float work
  componentwise, which makes the arrays a real vector space.
\<close>

datatype vec4 = Vec4 (S_of: real) (E_of: real) (I_of: real) (R_of: real)

instantiation vec4 :: real_vector
begin

definition zero_vec4 :: vec4 where
  "zero_vec4 = Vec4 0 0 0 0"

definition plus_vec4 :: "vec4 \<Rightarrow> vec4 \<Rightarrow> vec4" where
  "plus_vec4 u v = Vec4 (S_of u + S_of v) (E_of u + E_of v) (I_of u + I_of v) (R_of u + R_of v)"

definition minus_vec4 :: "vec4 \<Rightarrow> vec4 \<Rightarrow> vec4" where
  "minus_vec4 u v = Vec4 (S_of u - S_of v) (E_of u - E_of v) (I_of u - I_of v) (R_of u - R_of v)"

definition uminus_vec4 :: "vec4 \<Rightarrow> vec4" where
  "uminus_vec4 u = Vec4 (- S_of u) (- E_of u) (- I_of u) (- R_of u)"

definition scaleR_vec4 :: "real \<Rightarrow> vec4 \<Rightarrow> vec4" where
  "scaleR_vec4 a u = Vec4 (a * S_of u) (a * E_of u) (a * I_of u) (a * R_of u)"

instance
  by standard
    (simp_all add: zero_vec4_def plus_vec4_def minus_vec4_def uminus_vec4_def scaleR_vec4_def
      vec4.expand algebra_simps)

end

subsection \<open>The integrator\<close>

type_synonym 'a trajectory = "(real \<times> 'a) list"

text \<open>
  The body of the loop of \<^verbatim>\<open>euler\<close>, on the loop variables \<^verbatim>\<open>t\<close>, \<^verbatim>\<open>x\<close> and
  \<^verbatim>\<open>trajectory\<close>:
  \<^verbatim>\<open>
      t = t0 + k * h
      x = x + h * f(t, x)
      trajectory.append([t, x])
  \<close>
\<close>

definition euler_body ::
  "(real \<Rightarrow> 'a \<Rightarrow> 'a) \<Rightarrow> real \<Rightarrow> real \<Rightarrow> int \<Rightarrow>
    real \<times> 'a \<times> 'a trajectory \<Rightarrow> real \<times> ('a::real_vector) \<times> 'a trajectory" where
  "euler_body f t0 h k = (\<lambda>(t, x, trajectory).
     let t' = t0 + of_int k * h;
         x' = x + h *\<^sub>R f t' x
     in (t', x', trajectory @ [(t', x')]))"

text \<open>
  \<^verbatim>\<open>
  def euler(f, t0, x0, t1, h):
      t = t0
      x = x0
      trajectory = [[t, x]]
      for k in range(0, 1 + int((t1 - t0) / h)):
          ...
      return trajectory
  \<close>
\<close>

definition euler ::
  "(real \<Rightarrow> 'a \<Rightarrow> 'a) \<Rightarrow> real \<Rightarrow> 'a \<Rightarrow> real \<Rightarrow> real \<Rightarrow> py_error + ('a::real_vector) trajectory" where
  "euler f t0 x0 t1 h =
     (case py_truediv (t1 - t0) h of
        Inl e \<Rightarrow> Inl e
      | Inr q \<Rightarrow>
          Inr (snd (snd (fold (euler_body f t0 h) (py_range 0 (1 + py_int q))
                           (t0, x0, [(t0, x0)])))))"

subsection \<open>The model\<close>

text \<open>
  \<^verbatim>\<open>
  def SEIR_model(beta, alpha, gamma):
      def f(t, x):
          S, E, I, R = x
          return np.array([-beta * S * I, beta * S * I - alpha * E,
                           alpha * E - gamma * I, gamma * I])
      return f
  \<close>
\<close>

definition SEIR_model :: "real \<Rightarrow> real \<Rightarrow> real \<Rightarrow> real \<Rightarrow> vec4 \<Rightarrow> vec4" where
  "SEIR_model beta alpha gamma = (\<lambda>t x.
     case x of Vec4 S E I R \<Rightarrow>
       Vec4 (- beta * S * I)
            (beta * S * I - alpha * E)
            (alpha * E - gamma * I)
            (gamma * I))"

subsection \<open>The simulation\<close>

text \<open>\<^verbatim>\<open>zip(*result)\<close> separates the times from the states.\<close>

definition unzip :: "('a \<times> 'b) list \<Rightarrow> 'a list \<times> 'b list" where
  "unzip ps = (map fst ps, map snd ps)"

text \<open>\<^verbatim>\<open>np.array(x)\<close> stacks the state vectors as the rows of a matrix, and \<^verbatim>\<open>.T\<close>
  transposes it.\<close>

definition np_array :: "vec4 list \<Rightarrow> real list list" where
  "np_array x = map (\<lambda>v. [S_of v, E_of v, I_of v, R_of v]) x"

text \<open>
  \<^verbatim>\<open>
  def SEIR_simulation(beta, alpha, gamma, E0, I0, days, step=0.1):
      S0 = 1.0 - E0 - I0
      x0 = np.array([S0, E0, I0, 0.0])
      f = SEIR_model(beta, alpha, gamma)
      result = euler(f, 0, x0, days, step)
      t, x = zip(*result)
      return np.array(t), np.array(x).T
  \<close>
  The default value of \<^verbatim>\<open>step\<close> is an optional argument.
\<close>

definition SEIR_simulation ::
  "real \<Rightarrow> real \<Rightarrow> real \<Rightarrow> real \<Rightarrow> real \<Rightarrow> real \<Rightarrow> real option \<Rightarrow>
    py_error + real list \<times> real list list" where
  "SEIR_simulation beta alpha gamma E0 I0 days step_arg =
     (let step = (case step_arg of None \<Rightarrow> 1 / 10 | Some s \<Rightarrow> s);
          S0 = 1 - E0 - I0;
          x0 = Vec4 S0 E0 I0 0;
          f = SEIR_model beta alpha gamma
      in case euler f 0 x0 days step of
           Inl e \<Rightarrow> Inl e
         | Inr result \<Rightarrow>
             (case unzip result of (t, x) \<Rightarrow> Inr (t, transpose (np_array x))))"

section \<open>The same functions in floating-point arithmetic\<close>

subsection \<open>Binary64 values and rounding\<close>

text \<open>
  A Python float, and an element of a numpy \<^verbatim>\<open>float64\<close> array, is a finite binary64
  number, an infinity or NaN. The sign of a zero is not represented: no operation of the
  program distinguishes the two zeros.
\<close>

datatype pyfloat = Fin real | PInf | NInf | NaN

text \<open>Rounding a real to the nearest integer, a tie going to the even neighbour.\<close>

definition round_half_even :: "real \<Rightarrow> int" where
  "round_half_even x =
     (let n = \<lfloor>x\<rfloor>; d = x - of_int n
      in if d < 1 / 2 then n else if 1 / 2 < d then n + 1 else if even n then n else n + 1)"

text \<open>
  A finite binary64 number is an integer multiple of \<open>2\<^sup>-\<^sup>1\<^sup>0\<^sup>7\<^sup>4\<close> with a significand of at
  most 53 bits. For a real \<open>x\<close>, \<open>ulp_bits x\<close> is the number of low bits that a 53-bit
  significand cannot hold when \<open>x\<close> is written in units of \<open>2\<^sup>-\<^sup>1\<^sup>0\<^sup>7\<^sup>4\<close>, and \<open>ulp x\<close> is the
  spacing of the binary64 numbers around \<open>x\<close>. \<open>round64 x\<close> is the correctly rounded value
  of \<open>x\<close>: the nearest multiple of \<open>ulp x\<close>, ties to even, and an infinity when that
  multiple is beyond the largest finite number \<open>max_double\<close>.
\<close>

definition ulp_bits :: "real \<Rightarrow> nat" where
  "ulp_bits x = nat (bitlen \<lfloor>\<bar>x\<bar> * 2 ^ 1074\<rfloor> - 53)"

definition ulp :: "real \<Rightarrow> real" where
  "ulp x = 2 ^ ulp_bits x / 2 ^ 1074"

definition round64 :: "real \<Rightarrow> pyfloat" where
  "round64 x =
     (let r = of_int (round_half_even (x / ulp x)) * ulp x
      in if 2 ^ 1024 \<le> r then PInf else if r \<le> - (2 ^ 1024) then NInf else Fin r)"

definition max_double :: real where
  "max_double = (2 ^ 53 - 1) * 2 ^ 971"

subsection \<open>Arithmetic on floats\<close>

text \<open>
  Negation, addition, subtraction and multiplication of floats never raise: they round
  the exact result, overflow to an infinity, and give NaN for \<open>\<infinity> - \<infinity>\<close> and \<open>0 \<sqdot> \<infinity>\<close>.
\<close>

fun fneg :: "pyfloat \<Rightarrow> pyfloat" where
  "fneg (Fin a) = Fin (- a)"
| "fneg PInf = NInf"
| "fneg NInf = PInf"
| "fneg NaN = NaN"

fun fadd :: "pyfloat \<Rightarrow> pyfloat \<Rightarrow> pyfloat" where
  "fadd (Fin a) (Fin b) = round64 (a + b)"
| "fadd NaN y = NaN"
| "fadd x NaN = NaN"
| "fadd PInf NInf = NaN"
| "fadd NInf PInf = NaN"
| "fadd PInf y = PInf"
| "fadd x PInf = PInf"
| "fadd NInf y = NInf"
| "fadd x NInf = NInf"

definition fsub :: "pyfloat \<Rightarrow> pyfloat \<Rightarrow> pyfloat" where
  "fsub x y = fadd x (fneg y)"

fun fmul :: "pyfloat \<Rightarrow> pyfloat \<Rightarrow> pyfloat" where
  "fmul (Fin a) (Fin b) = round64 (a * b)"
| "fmul NaN y = NaN"
| "fmul x NaN = NaN"
| "fmul (Fin a) PInf = (if a = 0 then NaN else if 0 < a then PInf else NInf)"
| "fmul (Fin a) NInf = (if a = 0 then NaN else if 0 < a then NInf else PInf)"
| "fmul PInf (Fin b) = (if b = 0 then NaN else if 0 < b then PInf else NInf)"
| "fmul NInf (Fin b) = (if b = 0 then NaN else if 0 < b then NInf else PInf)"
| "fmul PInf PInf = PInf"
| "fmul PInf NInf = NInf"
| "fmul NInf PInf = NInf"
| "fmul NInf NInf = PInf"

text \<open>
  \<^verbatim>\<open>a / b\<close> on Python floats raises \<^verbatim>\<open>ZeroDivisionError\<close> when \<open>b\<close> is zero, and is the
  IEEE quotient otherwise: an overflowing quotient is an infinity, not an exception.
  \<open>fdiv\<close> is the quotient for a divisor that is not zero, and \<open>float_truediv\<close> is the
  operator with its check.
\<close>

fun fdiv :: "pyfloat \<Rightarrow> pyfloat \<Rightarrow> pyfloat" where
  "fdiv (Fin a) (Fin b) = round64 (a / b)"
| "fdiv NaN y = NaN"
| "fdiv x NaN = NaN"
| "fdiv (Fin a) PInf = Fin 0"
| "fdiv (Fin a) NInf = Fin 0"
| "fdiv PInf (Fin b) = (if 0 < b then PInf else NInf)"
| "fdiv NInf (Fin b) = (if 0 < b then NInf else PInf)"
| "fdiv PInf PInf = NaN"
| "fdiv PInf NInf = NaN"
| "fdiv NInf PInf = NaN"
| "fdiv NInf NInf = NaN"

definition float_truediv :: "pyfloat \<Rightarrow> pyfloat \<Rightarrow> py_error + pyfloat" where
  "float_truediv a b = (if b = Fin 0 then Inl ZeroDivisionError else Inr (fdiv a b))"

text \<open>
  An integer that meets a float in an arithmetic operation is converted to the nearest
  float first; the conversion raises \<^verbatim>\<open>OverflowError\<close> when the integer is beyond the range
  of the finite floats.
\<close>

definition int_to_float :: "int \<Rightarrow> py_error + pyfloat" where
  "int_to_float k = (case round64 (of_int k) of Fin r \<Rightarrow> Inr (Fin r) | _ \<Rightarrow> Inl OverflowError)"

text \<open>
  \<^verbatim>\<open>int(q)\<close> on a float truncates towards zero, raises \<^verbatim>\<open>OverflowError\<close> on an infinity
  and \<^verbatim>\<open>ValueError\<close> on NaN.
\<close>

fun float_to_int :: "pyfloat \<Rightarrow> py_error + int" where
  "float_to_int (Fin r) = Inr (py_int r)"
| "float_to_int PInf = Inl OverflowError"
| "float_to_int NInf = Inl OverflowError"
| "float_to_int NaN = Inl ValueError"

subsection \<open>State vectors of floats\<close>

text \<open>The numpy array of four \<^verbatim>\<open>float64\<close> values, with its componentwise operations.\<close>

datatype fvec4 = FVec4 (fS: pyfloat) (fE: pyfloat) (fI: pyfloat) (fR: pyfloat)

definition fvec_add :: "fvec4 \<Rightarrow> fvec4 \<Rightarrow> fvec4" where
  "fvec_add u v = FVec4 (fadd (fS u) (fS v)) (fadd (fE u) (fE v)) (fadd (fI u) (fI v)) (fadd (fR u) (fR v))"

definition fvec_scale :: "pyfloat \<Rightarrow> fvec4 \<Rightarrow> fvec4" where
  "fvec_scale h v = FVec4 (fmul h (fS v)) (fmul h (fE v)) (fmul h (fI v)) (fmul h (fR v))"

subsection \<open>The integrator on floats\<close>

type_synonym ftrajectory = "(pyfloat \<times> fvec4) list"

text \<open>
  The body of the loop: in \<^verbatim>\<open>t0 + k * h\<close> the loop index \<^verbatim>\<open>k\<close> is an integer and is
  converted to a float, the product and the sum are rounded; \<^verbatim>\<open>x + h * f(t, x)\<close> is
  computed componentwise on the array.
\<close>

definition euler_body_fl ::
  "(pyfloat \<Rightarrow> fvec4 \<Rightarrow> fvec4) \<Rightarrow> pyfloat \<Rightarrow> pyfloat \<Rightarrow> int \<Rightarrow>
    pyfloat \<times> fvec4 \<times> ftrajectory \<Rightarrow> py_error + pyfloat \<times> fvec4 \<times> ftrajectory" where
  "euler_body_fl f t0 h k = (\<lambda>(t, x, trajectory).
     case int_to_float k of
       Inl e \<Rightarrow> Inl e
     | Inr kf \<Rightarrow>
         let t' = fadd t0 (fmul kf h);
             x' = fvec_add x (fvec_scale h (f t' x))
         in Inr (t', x', trajectory @ [(t', x')]))"

text \<open>The loop runs through the range and stops at the first exception.\<close>

fun euler_loop_fl ::
  "(pyfloat \<Rightarrow> fvec4 \<Rightarrow> fvec4) \<Rightarrow> pyfloat \<Rightarrow> pyfloat \<Rightarrow> int list \<Rightarrow>
    pyfloat \<times> fvec4 \<times> ftrajectory \<Rightarrow> py_error + pyfloat \<times> fvec4 \<times> ftrajectory" where
  "euler_loop_fl f t0 h [] s = Inr s"
| "euler_loop_fl f t0 h (k # ks) s =
     (case euler_body_fl f t0 h k s of
        Inl e \<Rightarrow> Inl e
      | Inr s' \<Rightarrow> euler_loop_fl f t0 h ks s')"

text \<open>
  The loop bound \<^verbatim>\<open>1 + int((t1 - t0) / h)\<close> is computed before the loop: the difference
  and the quotient are floats, and \<^verbatim>\<open>int\<close> raises on a quotient that is not finite. The
  model has no bound on the running time or on the memory of the trajectory.
\<close>

definition euler_fl ::
  "(pyfloat \<Rightarrow> fvec4 \<Rightarrow> fvec4) \<Rightarrow> pyfloat \<Rightarrow> fvec4 \<Rightarrow> pyfloat \<Rightarrow> pyfloat \<Rightarrow>
    py_error + ftrajectory" where
  "euler_fl f t0 x0 t1 h =
     (case float_truediv (fsub t1 t0) h of
        Inl e \<Rightarrow> Inl e
      | Inr q \<Rightarrow>
          (case float_to_int q of
             Inl e \<Rightarrow> Inl e
           | Inr n \<Rightarrow>
               (case euler_loop_fl f t0 h (py_range 0 (1 + n)) (t0, x0, [(t0, x0)]) of
                  Inl e \<Rightarrow> Inl e
                | Inr s \<Rightarrow> Inr (snd (snd s)))))"

subsection \<open>The model and the simulation on floats\<close>

text \<open>
  In \<^verbatim>\<open>-beta * S * I\<close> the negation applies to \<open>beta\<close>, and the products associate to the
  left.
\<close>

definition SEIR_model_fl :: "pyfloat \<Rightarrow> pyfloat \<Rightarrow> pyfloat \<Rightarrow> pyfloat \<Rightarrow> fvec4 \<Rightarrow> fvec4" where
  "SEIR_model_fl beta alpha gamma = (\<lambda>t x.
     case x of FVec4 S E I R \<Rightarrow>
       FVec4 (fmul (fmul (fneg beta) S) I)
             (fsub (fmul (fmul beta S) I) (fmul alpha E))
             (fsub (fmul alpha E) (fmul gamma I))
             (fmul gamma I))"

definition np_array_fl :: "fvec4 list \<Rightarrow> pyfloat list list" where
  "np_array_fl x = map (\<lambda>v. [fS v, fE v, fI v, fR v]) x"

text \<open>The float that the literal \<^verbatim>\<open>0.1\<close> denotes.\<close>

definition default_step :: pyfloat where
  "default_step = Fin (3602879701896397 / 2 ^ 55)"

text \<open>
  The parameters have the types of the docstring of \<^verbatim>\<open>SEIR_simulation\<close>: the rates, the
  initial fractions and the step are floats, \<^verbatim>\<open>days\<close> is an integer. The source passes the
  integers \<^verbatim>\<open>0\<close> and \<^verbatim>\<open>days\<close> to \<^verbatim>\<open>euler\<close>; there \<^verbatim>\<open>(days - 0) / step\<close> converts \<^verbatim>\<open>days\<close>
  to a float, or raises, before anything else is computed, and \<^verbatim>\<open>0 + k * h\<close> adds the float
  zero. The conversion is therefore written at the call.
\<close>

definition SEIR_simulation_fl ::
  "pyfloat \<Rightarrow> pyfloat \<Rightarrow> pyfloat \<Rightarrow> pyfloat \<Rightarrow> pyfloat \<Rightarrow> int \<Rightarrow> pyfloat option \<Rightarrow>
    py_error + pyfloat list \<times> pyfloat list list" where
  "SEIR_simulation_fl beta alpha gamma E0 I0 days step_arg =
     (let step = (case step_arg of None \<Rightarrow> default_step | Some s \<Rightarrow> s);
          S0 = fsub (fsub (Fin 1) E0) I0;
          x0 = FVec4 S0 E0 I0 (Fin 0);
          f = SEIR_model_fl beta alpha gamma
      in case int_to_float days of
           Inl e \<Rightarrow> Inl e
         | Inr t1 \<Rightarrow>
             (case euler_fl f (Fin 0) x0 t1 step of
                Inl e \<Rightarrow> Inl e
              | Inr result \<Rightarrow>
                  (case unzip result of (t, x) \<Rightarrow> Inr (t, transpose (np_array_fl x)))))"

section \<open>Reference notions\<close>

text \<open>
  The sequence of states of the explicit Euler method, as the update rule defines it:
  \<open>x\<^sub>0\<close> is the initial state and \<open>x\<^sub>k\<^sub>+\<^sub>1 = x\<^sub>k + h f(t\<^sub>k, x\<^sub>k)\<close> with \<open>t\<^sub>k = t0 + k h\<close>.
  \<open>euler_updates f t0 h x0 k\<close> is the state after \<open>k\<close> updates.
\<close>

primrec euler_updates :: "(real \<Rightarrow> 'a \<Rightarrow> 'a) \<Rightarrow> real \<Rightarrow> real \<Rightarrow> 'a \<Rightarrow> nat \<Rightarrow> 'a::real_vector" where
  "euler_updates f t0 h x0 0 = x0"
| "euler_updates f t0 h x0 (Suc k) =
     euler_updates f t0 h x0 k + h *\<^sub>R f (t0 + real k * h) (euler_updates f t0 h x0 k)"

text \<open>The total mass of a state vector.\<close>

definition total :: "vec4 \<Rightarrow> real" where
  "total v = S_of v + E_of v + I_of v + R_of v"

text \<open>
  The simulation as its contract words it: with \<open>S0 = 1 - E0 - I0\<close> and
  \<open>x0 = (S0, E0, I0, 0)\<close>, the integrator runs from \<open>0\<close> to \<open>days\<close> on the derivative
  function of the model, with step \<open>0.1\<close> unless one is given; the result is the sequence of
  times and, for each compartment, the sequence of its values, both in the order of the steps.
\<close>

definition simulate_spec ::
  "real \<Rightarrow> real \<Rightarrow> real \<Rightarrow> real \<Rightarrow> real \<Rightarrow> real \<Rightarrow> real option \<Rightarrow>
    py_error + real list \<times> real list list" where
  "simulate_spec beta alpha gamma E0 I0 days step_arg =
     (let step = (case step_arg of None \<Rightarrow> 1 / 10 | Some s \<Rightarrow> s);
          S0 = 1 - E0 - I0;
          x0 = Vec4 S0 E0 I0 0
      in case euler (SEIR_model beta alpha gamma) 0 x0 days step of
           Inl e \<Rightarrow> Inl e
         | Inr traj \<Rightarrow>
             Inr (map fst traj,
                  [map (\<lambda>p. S_of (snd p)) traj, map (\<lambda>p. E_of (snd p)) traj,
                   map (\<lambda>p. I_of (snd p)) traj, map (\<lambda>p. R_of (snd p)) traj]))"

text \<open>
  The same sequence of states in floating-point arithmetic, and the time \<open>t0 + k h\<close> as the
  loop computes it.
\<close>

primrec euler_updates_fl ::
  "(pyfloat \<Rightarrow> fvec4 \<Rightarrow> fvec4) \<Rightarrow> pyfloat \<Rightarrow> pyfloat \<Rightarrow> fvec4 \<Rightarrow> nat \<Rightarrow> fvec4" where
  "euler_updates_fl f t0 h x0 0 = x0"
| "euler_updates_fl f t0 h x0 (Suc k) =
     fvec_add (euler_updates_fl f t0 h x0 k)
       (fvec_scale h (f (fadd t0 (fmul (round64 (real k)) h)) (euler_updates_fl f t0 h x0 k)))"

definition euler_time_fl :: "pyfloat \<Rightarrow> pyfloat \<Rightarrow> nat \<Rightarrow> pyfloat" where
  "euler_time_fl t0 h k = fadd t0 (fmul (round64 (real k)) h)"

section \<open>Properties\<close>

subsection \<open>The loop of the integrator\<close>

lemma py_range_Suc: "py_range 0 (int (Suc m)) = py_range 0 (int m) @ [int m]"
  by (simp add: py_range_def upto_rec2)

lemma py_range_nonpos: "n \<le> 0 \<Longrightarrow> py_range 0 n = []"
  by (simp add: py_range_def)

lemma py_range_nat: "py_range 0 n = py_range 0 (int (nat n))"
  by (cases "0 \<le> n") (simp_all add: py_range_def)

lemma euler_loop:
  "fold (euler_body f t0 h) (py_range 0 (int m)) (t0, x0, [(t0, x0)]) =
     (if m = 0 then t0 else t0 + real (m - 1) * h,
      euler_updates f t0 h x0 m,
      (t0, x0) # map (\<lambda>k. (t0 + real k * h, euler_updates f t0 h x0 (Suc k))) [0..<m])"
proof (induction m)
  case 0
  show ?case by (simp add: py_range_nonpos)
next
  case (Suc m)
  have "fold (euler_body f t0 h) (py_range 0 (int (Suc m))) (t0, x0, [(t0, x0)])
      = euler_body f t0 h (int m) (fold (euler_body f t0 h) (py_range 0 (int m)) (t0, x0, [(t0, x0)]))"
    by (simp only: py_range_Suc fold_append fold_simps comp_apply)
  also have "\<dots> = euler_body f t0 h (int m)
      (if m = 0 then t0 else t0 + real (m - 1) * h,
       euler_updates f t0 h x0 m,
       (t0, x0) # map (\<lambda>k. (t0 + real k * h, euler_updates f t0 h x0 (Suc k))) [0..<m])"
    by (simp only: Suc.IH)
  also have "\<dots> = (if Suc m = 0 then t0 else t0 + real (Suc m - 1) * h,
      euler_updates f t0 h x0 (Suc m),
      (t0, x0) # map (\<lambda>k. (t0 + real k * h, euler_updates f t0 h x0 (Suc k))) [0..<Suc m])"
    by (simp add: euler_body_def Let_def)
  finally show ?case .
qed

lemma euler_trajectory:
  assumes "h \<noteq> 0"
  shows "euler f t0 x0 t1 h =
     Inr ((t0, x0) # map (\<lambda>k. (t0 + real k * h, euler_updates f t0 h x0 (Suc k)))
                       [0..<nat (1 + py_int ((t1 - t0) / h))])"
proof -
  have "fold (euler_body f t0 h) (py_range 0 (1 + py_int ((t1 - t0) / h))) (t0, x0, [(t0, x0)])
      = fold (euler_body f t0 h) (py_range 0 (int (nat (1 + py_int ((t1 - t0) / h))))) (t0, x0, [(t0, x0)])"
    using py_range_nat [of "1 + py_int ((t1 - t0) / h)"] by (rule arg_cong)
  then show ?thesis
    using assms by (simp only: euler_def py_truediv_def euler_loop if_False sum.case snd_conv)
qed

lemma euler_zero_step: "euler f t0 x0 t1 0 = Inl ZeroDivisionError"
  by (simp add: euler_def py_truediv_def)

lemma py_int_nonneg: "0 \<le> r \<Longrightarrow> py_int r = \<lfloor>r\<rfloor>"
  by (simp add: py_int_def)

subsection \<open>The result of the simulation\<close>

lemma transpose_np_array:
  assumes "x \<noteq> []"
  shows "transpose (np_array x) = [map S_of x, map E_of x, map I_of x, map R_of x]"
proof -
  have "transpose (np_array x) =
      map (\<lambda>i. map (\<lambda>j. np_array x ! j ! i) [0..<length (np_array x)]) [0..<4]"
    by (rule transpose_rectangle) (use assms in \<open>simp_all add: np_array_def\<close>)
  also have "\<dots> = map (\<lambda>i. map (\<lambda>v. [S_of v, E_of v, I_of v, R_of v] ! i) x) [0..<4]"
  proof -
    have "map (\<lambda>j. np_array x ! j ! i) [0..<length (np_array x)]
        = map (\<lambda>v. [S_of v, E_of v, I_of v, R_of v] ! i) x" for i
      by (rule nth_equalityI) (simp_all add: np_array_def)
    then show ?thesis by simp
  qed
  also have "[0..<4] = [0, 1, 2, 3::nat]"
    by (simp add: upt_rec)
  finally show ?thesis by simp
qed

lemma SEIR_simulation_unfold:
  "SEIR_simulation beta alpha gamma E0 I0 days step_arg =
     (case euler (SEIR_model beta alpha gamma) 0 (Vec4 (1 - E0 - I0) E0 I0 0) days
             (case step_arg of None \<Rightarrow> 1 / 10 | Some s \<Rightarrow> s) of
        Inl e \<Rightarrow> Inl e
      | Inr traj \<Rightarrow>
          Inr (map fst traj,
               [map (\<lambda>p. S_of (snd p)) traj, map (\<lambda>p. E_of (snd p)) traj,
                map (\<lambda>p. I_of (snd p)) traj, map (\<lambda>p. R_of (snd p)) traj]))"
proof -
  define step where "step = (case step_arg of None \<Rightarrow> 1 / 10 | Some s \<Rightarrow> s)"
  define x0 where "x0 = Vec4 (1 - E0 - I0) E0 I0 0"
  show ?thesis
  proof (cases "step = 0")
    case True
    then show ?thesis
      by (simp add: SEIR_simulation_def step_def [symmetric] euler_zero_step)
  next
    case False
    then obtain traj where traj: "euler (SEIR_model beta alpha gamma) 0 x0 days step = Inr traj"
      and ne: "traj \<noteq> []"
      by (simp add: euler_trajectory)
    from ne have "map snd traj \<noteq> []" by simp
    then have "transpose (np_array (map snd traj)) =
        [map S_of (map snd traj), map E_of (map snd traj),
         map I_of (map snd traj), map R_of (map snd traj)]"
      by (rule transpose_np_array)
    then show ?thesis
      using traj
      by (simp add: SEIR_simulation_def step_def [symmetric] x0_def [symmetric]
          unzip_def comp_def)
  qed
qed

subsection \<open>Conservation of mass\<close>

lemma total_SEIR_model: "total (SEIR_model beta alpha gamma t x) = 0"
  by (cases x) (simp add: total_def SEIR_model_def)

lemma total_plus: "total (u + v) = total u + total v"
  by (simp add: total_def plus_vec4_def)

lemma total_scaleR: "total (a *\<^sub>R v) = a * total v"
  by (simp add: total_def scaleR_vec4_def algebra_simps)

lemma total_euler_updates:
  "total (euler_updates (SEIR_model beta alpha gamma) t0 h x0 k) = total x0"
  by (induction k) (simp_all add: total_plus total_scaleR total_SEIR_model)

subsection \<open>Vanishing rates\<close>




section \<open>Properties of the floating-point functions\<close>

subsection \<open>Rounding\<close>

lemma round_half_even_le: "x \<le> of_int N \<Longrightarrow> round_half_even x \<le> N"
  unfolding round_half_even_def Let_def by (auto; linarith)

lemma round_half_even_ge: "of_int N \<le> x \<Longrightarrow> N \<le> round_half_even x"
  unfolding round_half_even_def Let_def by (auto; linarith)

lemma round_half_even_of_int [simp]: "round_half_even (of_int N) = N"
  by (simp add: round_half_even_def)

lemma round_half_even_0 [simp]: "round_half_even 0 = 0"
  using round_half_even_of_int [of 0] by simp

lemma nat_int_53: "nat (int p + 53) = p + 53" "nat (int p + 53) - Suc 0 = p + 52"
  by linarith+

lemma ulp_pos: "0 < ulp x"
  by (simp add: ulp_def)

lemma ulp_bits_upper: "\<bar>x\<bar> * 2 ^ 1074 < 2 ^ (ulp_bits x + 53)"
proof -
  define n where "n = \<lfloor>\<bar>x\<bar> * 2 ^ 1074\<rfloor>"
  have "bitlen n \<le> int (ulp_bits x + 53)"
    by (simp add: ulp_bits_def n_def)
  then have "n < 2 ^ (ulp_bits x + 53)"
    by (simp add: bitlen_le_iff_power nat_int_53)
  then have "\<bar>x\<bar> * 2 ^ 1074 < of_int (2 ^ (ulp_bits x + 53))"
    unfolding n_def by (simp only: floor_less_iff)
  then show ?thesis by simp
qed

lemma ulp_bits_lower:
  assumes "0 < ulp_bits x"
  shows "2 ^ (ulp_bits x + 52) \<le> \<bar>x\<bar> * 2 ^ 1074"
proof -
  define n where "n = \<lfloor>\<bar>x\<bar> * 2 ^ 1074\<rfloor>"
  from assms have "int (ulp_bits x + 53) \<le> bitlen n"
    by (simp add: ulp_bits_def n_def)
  then have "2 ^ (ulp_bits x + 52) \<le> n"
    by (simp add: bitlen_ge_iff_power nat_int_53 add.commute)
  then have "of_int (2 ^ (ulp_bits x + 52)) \<le> \<bar>x\<bar> * 2 ^ 1074"
    unfolding n_def by (simp only: le_floor_iff)
  then show ?thesis by simp
qed

lemma ulp_bits_eqI:
  assumes "2 ^ (p + 52) \<le> \<bar>x\<bar> * 2 ^ 1074" "\<bar>x\<bar> * 2 ^ 1074 < 2 ^ (p + 53)"
  shows "ulp_bits x = p"
proof -
  define n where "n = \<lfloor>\<bar>x\<bar> * 2 ^ 1074\<rfloor>"
  have "of_int (2 ^ (p + 52)) \<le> \<bar>x\<bar> * 2 ^ 1074" using assms(1) by simp
  then have 1: "2 ^ (p + 52) \<le> n" unfolding n_def by (simp only: le_floor_iff)
  have "\<bar>x\<bar> * 2 ^ 1074 < of_int (2 ^ (p + 53))" using assms(2) by simp
  then have 2: "n < 2 ^ (p + 53)" unfolding n_def by (simp only: floor_less_iff)
  from 1 have "int (p + 53) \<le> bitlen n" by (simp add: bitlen_ge_iff_power nat_int_53 add.commute)
  moreover from 2 have "bitlen n \<le> int (p + 53)" by (simp add: bitlen_le_iff_power nat_int_53)
  ultimately have "bitlen n = int p + 53" by simp
  then show ?thesis by (simp add: ulp_bits_def n_def)
qed

lemma scaled_abs_less: "\<bar>x / ulp x\<bar> < 2 ^ 53"
proof -
  have "\<bar>x\<bar> * 2 ^ 1074 < 2 ^ ulp_bits x * 2 ^ 53"
    using ulp_bits_upper [of x] by (simp add: power_add)
  then have "\<bar>x\<bar> * 2 ^ 1074 / 2 ^ ulp_bits x < 2 ^ 53"
    by (simp add: pos_divide_less_eq mult.commute)
  then show ?thesis by (simp add: ulp_def abs_divide)
qed

lemma scaled_abs_ge:
  assumes "0 < ulp_bits x"
  shows "2 ^ 52 \<le> \<bar>x / ulp x\<bar>"
proof -
  have "2 ^ ulp_bits x * 2 ^ 52 \<le> \<bar>x\<bar> * 2 ^ 1074"
    using ulp_bits_lower [OF assms] by (simp add: power_add)
  then have "2 ^ 52 \<le> \<bar>x\<bar> * 2 ^ 1074 / 2 ^ ulp_bits x"
    by (simp add: pos_le_divide_eq mult.commute)
  then show ?thesis by (simp add: ulp_def abs_divide)
qed

lemma ulp_bits_0 [simp]: "ulp_bits 0 = 0"
  by (simp add: ulp_bits_def)

lemma round64_0 [simp]: "round64 0 = Fin 0"
  by (simp add: round64_def)

lemma round_int_bounds:
  "- (2 ^ 53) \<le> round_half_even (x / ulp x)" "round_half_even (x / ulp x) \<le> 2 ^ 53"
proof -
  have "\<bar>x / ulp x\<bar> < 2 ^ 53" by (rule scaled_abs_less)
  then have "- (2 ^ 53) \<le> x / ulp x" "x / ulp x \<le> 2 ^ 53"
    by linarith+
  then have b: "of_int (- (2 ^ 53)) \<le> x / ulp x" "x / ulp x \<le> of_int (2 ^ 53)"
    by simp_all
  from b(1) show "- (2 ^ 53) \<le> round_half_even (x / ulp x)"
    by (rule round_half_even_ge)
  from b(2) show "round_half_even (x / ulp x) \<le> 2 ^ 53"
    by (rule round_half_even_le)
qed

lemma round64_nonneg:
  assumes "0 \<le> x"
  shows "round64 x = PInf \<or> (\<exists>r\<ge>0. round64 x = Fin r)"
proof -
  have "of_int 0 \<le> x / ulp x" using assms ulp_pos [of x] by simp
  then have "0 \<le> round_half_even (x / ulp x)" by (rule round_half_even_ge)
  then have "0 \<le> of_int (round_half_even (x / ulp x)) * ulp x"
    using ulp_pos [of x] by simp
  then show ?thesis
    by (simp add: round64_def Let_def)
qed

lemma round64_finite_bound:
  assumes "round64 z = Fin q"
  shows "\<bar>q\<bar> \<le> max_double"
proof -
  define R where "R = round_half_even (z / ulp z)"
  define p where "p = ulp_bits z"
  have q: "q = of_int R * ulp z" and lt: "q < 2 ^ 1024" and gt: "- (2 ^ 1024) < q"
    using assms by (auto simp: round64_def Let_def R_def split: if_splits)
  have u: "ulp z = 2 ^ p / 2 ^ 1074" by (simp add: ulp_def p_def)
  have Rb: "- (2 ^ 53) \<le> R" "R \<le> 2 ^ 53"
    unfolding R_def by (rule round_int_bounds)+
  then have "\<bar>R\<bar> \<le> 2 ^ 53" by linarith
  then have "real_of_int \<bar>R\<bar> \<le> real_of_int (2 ^ 53)" by (simp only: of_int_le_iff)
  then have Rabs: "\<bar>real_of_int R\<bar> \<le> 2 ^ 53" by simp
  have qabs: "\<bar>q\<bar> = \<bar>real_of_int R\<bar> * ulp z"
    using ulp_pos [of z] by (simp add: q abs_mult)
  consider "p \<le> 2044" | "p = 2045" | "2046 \<le> p" by linarith
  then show ?thesis
  proof cases
    case 1
    then have "(2::real) ^ p \<le> 2 ^ 2044" by (intro power_increasing) simp_all
    then have "ulp z \<le> 2 ^ 970" by (simp add: u field_simps)
    then have "\<bar>q\<bar> \<le> 2 ^ 53 * 2 ^ 970"
      unfolding qabs using Rabs ulp_pos [of z] by (intro mult_mono) simp_all
    also have "\<dots> \<le> max_double" by (simp add: max_double_def)
    finally show ?thesis .
  next
    case 2
    then have u2: "ulp z = 2 ^ 971" by (simp add: u)
    have "\<bar>real_of_int R\<bar> * 2 ^ 971 < 2 ^ 1024"
      using lt gt unfolding q u2 by (simp add: abs_if)
    then have "\<bar>real_of_int R\<bar> < 2 ^ 53" by simp
    then have "real_of_int \<bar>R\<bar> < real_of_int (2 ^ 53)" by simp
    then have "\<bar>R\<bar> < 2 ^ 53" by (simp only: of_int_less_iff)
    then have "\<bar>R\<bar> \<le> 2 ^ 53 - 1" by simp
    then have "real_of_int \<bar>R\<bar> \<le> real_of_int (2 ^ 53 - 1)" by (simp only: of_int_le_iff)
    then have "\<bar>real_of_int R\<bar> \<le> 2 ^ 53 - 1" by simp
    then show ?thesis
      unfolding qabs u2 max_double_def by simp
  next
    case 3
    then have pos: "0 < ulp_bits z" by (simp add: p_def)
    have "2 ^ 52 \<le> \<bar>z / ulp z\<bar>" by (rule scaled_abs_ge [OF pos])
    then consider "of_int (2 ^ 52) \<le> z / ulp z" | "z / ulp z \<le> of_int (- (2 ^ 52))"
      by (cases "0 \<le> z / ulp z") simp_all
    then have "2 ^ 52 \<le> \<bar>R\<bar>"
    proof cases
      case 1
      then have "2 ^ 52 \<le> R" unfolding R_def by (rule round_half_even_ge)
      then show ?thesis by simp
    next
      case 2
      then have "R \<le> - (2 ^ 52)" unfolding R_def by (rule round_half_even_le)
      then show ?thesis by simp
    qed
    then have "real_of_int (2 ^ 52) \<le> real_of_int \<bar>R\<bar>" by (simp only: of_int_le_iff)
    then have R52: "2 ^ 52 \<le> \<bar>real_of_int R\<bar>" by simp
    from 3 have "(2::real) ^ 2046 \<le> 2 ^ p" by (intro power_increasing) simp_all
    then have "2 ^ 972 \<le> ulp z" by (simp add: u field_simps)
    with R52 have "2 ^ 52 * 2 ^ 972 \<le> \<bar>real_of_int R\<bar> * ulp z"
      by (intro mult_mono) simp_all
    then have "2 ^ 1024 \<le> \<bar>q\<bar>" unfolding qabs by simp
    with lt gt show ?thesis by (simp add: abs_if split: if_splits)
  qed
qed

lemma round64_finite_if:
  assumes "\<bar>x\<bar> \<le> max_double"
  shows "\<exists>r. round64 x = Fin r"
proof -
  define R where "R = round_half_even (x / ulp x)"
  define p where "p = ulp_bits x"
  have u: "ulp x = 2 ^ p / 2 ^ 1074" by (simp add: ulp_def p_def)
  have Rb: "- (2 ^ 53) \<le> R" "R \<le> 2 ^ 53"
    unfolding R_def by (rule round_int_bounds)+
  have "p \<le> 2045"
  proof (rule ccontr)
    assume "\<not> p \<le> 2045"
    then have p: "2046 \<le> p" by simp
    then have pos: "0 < ulp_bits x" by (simp add: p_def)
    have "(2::real) ^ (2046 + 52) \<le> 2 ^ (p + 52)"
      using p by (intro power_increasing) simp_all
    also have "\<dots> \<le> \<bar>x\<bar> * 2 ^ 1074"
      using ulp_bits_lower [OF pos] by (simp add: p_def)
    also have "\<dots> \<le> max_double * 2 ^ 1074"
      using assms by simp
    finally show False by (simp add: max_double_def)
  qed
  then consider "p \<le> 2044" | "p = 2045" by linarith
  then have "\<bar>real_of_int R * ulp x\<bar> < 2 ^ 1024"
  proof cases
    case 1
    then have "(2::real) ^ p \<le> 2 ^ 2044" by (intro power_increasing) simp_all
    then have "ulp x \<le> 2 ^ 970" by (simp add: u field_simps)
    moreover have "\<bar>real_of_int R\<bar> \<le> 2 ^ 53"
    proof -
      from Rb have "\<bar>R\<bar> \<le> 2 ^ 53" by linarith
      then have "real_of_int \<bar>R\<bar> \<le> real_of_int (2 ^ 53)" by (simp only: of_int_le_iff)
      then show ?thesis by simp
    qed
    ultimately have "\<bar>real_of_int R\<bar> * ulp x \<le> 2 ^ 53 * 2 ^ 970"
      using ulp_pos [of x] by (intro mult_mono) simp_all
    then show ?thesis using ulp_pos [of x] by (simp add: abs_mult)
  next
    case 2
    then have u2: "ulp x = 2 ^ 971" by (simp add: u)
    have "\<bar>x / ulp x\<bar> \<le> 2 ^ 53 - 1"
      using assms unfolding u2 max_double_def by (simp add: field_simps)
    then have "- (2 ^ 53 - 1) \<le> x / ulp x" "x / ulp x \<le> 2 ^ 53 - 1"
      by linarith+
    then have "of_int (- (2 ^ 53 - 1)) \<le> x / ulp x" "x / ulp x \<le> of_int (2 ^ 53 - 1)"
      by simp_all
    then have "- (2 ^ 53 - 1) \<le> R" "R \<le> 2 ^ 53 - 1"
      unfolding R_def by (simp_all only: round_half_even_ge round_half_even_le)
    then have "\<bar>R\<bar> \<le> 2 ^ 53 - 1" by linarith
    then have "real_of_int \<bar>R\<bar> \<le> real_of_int (2 ^ 53 - 1)" by (simp only: of_int_le_iff)
    then have "\<bar>real_of_int R\<bar> \<le> 2 ^ 53 - 1" by simp
    then show ?thesis unfolding u2 by (simp add: abs_mult)
  qed
  then show ?thesis
    by (simp add: round64_def Let_def R_def abs_if split: if_splits)
qed

lemma round64_exact:
  assumes "x * 2 ^ 1074 = of_int N * 2 ^ j" "\<bar>N\<bar> < 2 ^ 53" "\<bar>x\<bar> < 2 ^ 1024"
  shows "round64 x = Fin x"
proof -
  define p where "p = ulp_bits x"
  have "real_of_int \<bar>N\<bar> < real_of_int (2 ^ 53)"
    using assms(2) by (simp only: of_int_less_iff)
  then have N: "\<bar>real_of_int N\<bar> < 2 ^ 53" by simp
  have "\<bar>x\<bar> * 2 ^ 1074 = \<bar>real_of_int N\<bar> * 2 ^ j"
    using arg_cong [OF assms(1), of abs] by (simp add: abs_mult)
  also have "\<dots> < 2 ^ 53 * 2 ^ j"
    using N by simp
  finally have "\<bar>x\<bar> * 2 ^ 1074 < of_int (2 ^ (j + 53))"
    by (simp add: power_add mult.commute)
  then have "\<lfloor>\<bar>x\<bar> * 2 ^ 1074\<rfloor> < 2 ^ (j + 53)"
    by (simp only: floor_less_iff)
  then have "bitlen \<lfloor>\<bar>x\<bar> * 2 ^ 1074\<rfloor> \<le> int (j + 53)"
    by (simp add: bitlen_le_iff_power nat_int_53)
  then have pj: "p \<le> j"
    by (simp add: p_def ulp_bits_def)
  have "x / ulp x = x * 2 ^ 1074 / 2 ^ p"
    by (simp add: ulp_def p_def)
  also have "\<dots> = of_int N * (2 ^ j / 2 ^ p)"
    by (simp only: assms(1) times_divide_eq_right)
  also have "(2::real) ^ j / 2 ^ p = 2 ^ (j - p)"
    using pj by (simp add: power_diff)
  finally have m: "x / ulp x = of_int (N * 2 ^ (j - p))"
    by simp
  have "of_int (round_half_even (x / ulp x)) * ulp x = x / ulp x * ulp x"
    by (simp only: m round_half_even_of_int)
  also have "\<dots> = x"
    using ulp_pos [of x] by simp
  finally show ?thesis
    using assms(3) by (simp add: round64_def Let_def abs_if split: if_splits)
qed

lemma round64_exact_small:
  assumes "\<bar>x\<bar> < 2" "of_int \<lfloor>x * 2 ^ 52\<rfloor> = x * 2 ^ 52"
  shows "round64 x = Fin x"
proof (rule round64_exact [where N = "\<lfloor>x * 2 ^ 52\<rfloor>" and j = 1022])
  have "x * 2 ^ 1074 = (x * 2 ^ 52) * 2 ^ 1022" by simp
  then show "x * 2 ^ 1074 = of_int \<lfloor>x * 2 ^ 52\<rfloor> * 2 ^ 1022"
    by (simp only: assms(2))
  have "\<bar>x * 2 ^ 52\<bar> < 2 * 2 ^ 52"
    using assms(1) by (simp add: abs_mult)
  then have "\<bar>real_of_int \<lfloor>x * 2 ^ 52\<rfloor>\<bar> < 2 * 2 ^ 52"
    by (simp only: assms(2))
  then have "real_of_int \<bar>\<lfloor>x * 2 ^ 52\<rfloor>\<bar> < real_of_int (2 ^ 53)"
    by simp
  then show "\<bar>\<lfloor>x * 2 ^ 52\<rfloor>\<bar> < 2 ^ 53"
    by (simp only: of_int_less_iff)
  show "\<bar>x\<bar> < 2 ^ 1024" using assms(1) by simp
qed

lemma round64_exact_int:
  assumes "\<bar>x\<bar> < 2 ^ 53" "of_int \<lfloor>x\<rfloor> = x"
  shows "round64 x = Fin x"
proof (rule round64_exact [where N = "\<lfloor>x\<rfloor>" and j = 1074])
  show "x * 2 ^ 1074 = of_int \<lfloor>x\<rfloor> * 2 ^ 1074"
    by (simp only: assms(2))
  have "\<bar>real_of_int \<lfloor>x\<rfloor>\<bar> < 2 ^ 53"
    using assms(1) by (simp only: assms(2))
  then have "real_of_int \<bar>\<lfloor>x\<rfloor>\<bar> < real_of_int (2 ^ 53)"
    by simp
  then show "\<bar>\<lfloor>x\<rfloor>\<bar> < 2 ^ 53"
    by (simp only: of_int_less_iff)
  show "\<bar>x\<bar> < 2 ^ 1024" using assms(1) by simp
qed

lemma round64_binade:
  assumes "2 ^ (p + 52) \<le> \<bar>x\<bar> * 2 ^ 1074" "\<bar>x\<bar> * 2 ^ 1074 < 2 ^ (p + 53)"
  shows "round64 x =
     (let r = of_int (round_half_even (x * 2 ^ 1074 / 2 ^ p)) * 2 ^ p / 2 ^ 1074
      in if 2 ^ 1024 \<le> r then PInf else if r \<le> - (2 ^ 1024) then NInf else Fin r)"
  using ulp_bits_eqI [OF assms] by (simp add: round64_def ulp_def Let_def)


text \<open>Some roundings that the examples below need.\<close>

lemma round64_2_60: "round64 1152921504606846976 = Fin 1152921504606846976"
  by (rule round64_exact [where N = 1 and j = 1134]) simp_all

lemma round64_m2_60: "round64 (- 1152921504606846976) = Fin (- 1152921504606846976)"
  by (rule round64_exact [where N = "- 1" and j = 1134]) simp_all

lemma round64_2_61: "round64 2305843009213693952 = Fin 2305843009213693952"
  by (rule round64_exact [where N = 1 and j = 1135]) simp_all

lemma round64_m2_61: "round64 (- 2305843009213693952) = Fin (- 2305843009213693952)"
  by (rule round64_exact [where N = "- 1" and j = 1135]) simp_all

lemma round64_absorb: "round64 (- 2305843009213693951) = Fin (- 2305843009213693952)"
  by (simp add: round64_binade [where p = 1082] round_half_even_def)

lemma round64_tenth_quotient: "round64 (36028797018963968 / 3602879701896397) = Fin 10"
  by (simp add: round64_binade [where p = 1025] round_half_even_def)

lemma round64_2_1023:
  "round64 (2 ^ 1023) = Fin (2 ^ 1023)"
  by (rule round64_exact [where N = 1 and j = 2097]) simp_all

lemma round64_17_tenths:
  "round64 (61248954932238749 / 36028797018963968) = Fin (1914029841632461 / 1125899906842624)"
  by (simp add: round64_binade [where p = 1022] round_half_even_def)

lemma quotient_17:
  "round64 (61248954932238744 / 3602879701896397) = Fin 17"
  by (simp add: round64_binade [where p = 1026] round_half_even_def)

lemma round64_tenth: "round64 (1 / 10) = default_step"
  by (simp add: default_step_def round64_binade [where p = 1018] round_half_even_def)

subsection \<open>The loop of the integrator on floats\<close>

lemma int_to_float_small:
  assumes "\<bar>real_of_int k\<bar> \<le> max_double"
  shows "int_to_float k = Inr (round64 (of_int k))"
  using round64_finite_if [OF assms] by (auto simp: int_to_float_def)


lemma euler_loop_fl_append:
  "euler_loop_fl f t0 h (ks @ [k]) s =
     (case euler_loop_fl f t0 h ks s of Inl e \<Rightarrow> Inl e | Inr s' \<Rightarrow> euler_body_fl f t0 h k s')"
  by (induction ks arbitrary: s) (simp_all split: sum.splits)

lemma euler_body_fl_step:
  assumes "\<bar>real k\<bar> \<le> max_double"
  shows "euler_body_fl f t0 h (int k) (t, x, trajectory) =
     Inr (euler_time_fl t0 h k,
          fvec_add x (fvec_scale h (f (euler_time_fl t0 h k) x)),
          trajectory @ [(euler_time_fl t0 h k, fvec_add x (fvec_scale h (f (euler_time_fl t0 h k) x)))])"
proof -
  have "int_to_float (int k) = Inr (round64 (real k))"
    using int_to_float_small [of "int k"] assms by simp
  then show ?thesis
    by (simp add: euler_body_fl_def euler_time_fl_def Let_def)
qed

lemma euler_loop_fl_closed:
  assumes "real m \<le> max_double + 1"
  shows "euler_loop_fl f t0 h (py_range 0 (int m)) (t0, x0, [(t0, x0)]) =
     Inr (if m = 0 then t0 else euler_time_fl t0 h (m - 1),
          euler_updates_fl f t0 h x0 m,
          (t0, x0) # map (\<lambda>k. (euler_time_fl t0 h k, euler_updates_fl f t0 h x0 (Suc k))) [0..<m])"
  using assms
proof (induction m)
  case 0
  show ?case by (simp add: py_range_nonpos)
next
  case (Suc m)
  from Suc.prems have m: "\<bar>real m\<bar> \<le> max_double" and m': "real m \<le> max_double + 1"
    by simp_all
  have "euler_loop_fl f t0 h (py_range 0 (int (Suc m))) (t0, x0, [(t0, x0)])
      = (case euler_loop_fl f t0 h (py_range 0 (int m)) (t0, x0, [(t0, x0)]) of
           Inl e \<Rightarrow> Inl e | Inr s' \<Rightarrow> euler_body_fl f t0 h (int m) s')"
    by (simp only: py_range_Suc euler_loop_fl_append)
  also have "\<dots> = euler_body_fl f t0 h (int m)
      (if m = 0 then t0 else euler_time_fl t0 h (m - 1),
       euler_updates_fl f t0 h x0 m,
       (t0, x0) # map (\<lambda>k. (euler_time_fl t0 h k, euler_updates_fl f t0 h x0 (Suc k))) [0..<m])"
    by (simp only: Suc.IH [OF m'] sum.case)
  also have "\<dots> = Inr (if Suc m = 0 then t0 else euler_time_fl t0 h (Suc m - 1),
      euler_updates_fl f t0 h x0 (Suc m),
      (t0, x0) # map (\<lambda>k. (euler_time_fl t0 h k, euler_updates_fl f t0 h x0 (Suc k))) [0..<Suc m])"
    by (simp add: euler_body_fl_step [OF m] euler_time_fl_def)
  finally show ?case .
qed

lemma fdiv_finite_bound:
  assumes "fdiv a b = Fin q"
  shows "\<bar>q\<bar> \<le> max_double"
proof -
  have z: "\<bar>0::real\<bar> \<le> max_double" by (simp add: max_double_def)
  show ?thesis
  proof (cases a)
    case a: (Fin x)
    show ?thesis
    proof (cases b)
      case (Fin y)
      with a assms have "round64 (x / y) = Fin q" by simp
      then show ?thesis by (rule round64_finite_bound)
    next
      case PInf
      with a assms z show ?thesis by simp
    next
      case NInf
      with a assms z show ?thesis by simp
    next
      case NaN
      with a assms show ?thesis by simp
    qed
  next
    case PInf
    then show ?thesis using assms by (cases b) (auto split: if_splits)
  next
    case NInf
    then show ?thesis using assms by (cases b) (auto split: if_splits)
  next
    case NaN
    then show ?thesis using assms by simp
  qed
qed

lemma py_int_le_abs: "real_of_int (py_int q) \<le> \<bar>q\<bar>"
proof (cases "0 \<le> q")
  case True
  then show ?thesis by (simp add: py_int_def)
next
  case False
  then have "\<lceil>q\<rceil> \<le> 0" by (simp add: ceiling_le_iff)
  then have "real_of_int \<lceil>q\<rceil> \<le> real_of_int 0" by (simp only: of_int_le_iff)
  then have "real_of_int \<lceil>q\<rceil> \<le> \<bar>q\<bar>" by linarith
  with False show ?thesis by (simp only: py_int_def if_False)
qed

lemma euler_fl_trajectory:
  assumes "h \<noteq> Fin 0" "fdiv (fsub t1 t0) h = Fin q"
  shows "euler_fl f t0 x0 t1 h =
     Inr ((t0, x0) # map (\<lambda>k. (euler_time_fl t0 h k, euler_updates_fl f t0 h x0 (Suc k)))
                       [0..<nat (1 + py_int q)])"
proof -
  have "real_of_int (py_int q) \<le> max_double"
    using py_int_le_abs [of q] fdiv_finite_bound [OF assms(2)] by linarith
  moreover have "0 \<le> max_double" by (simp add: max_double_def)
  ultimately have "real (nat (1 + py_int q)) \<le> max_double + 1"
    by (cases "0 \<le> 1 + py_int q") simp_all
  then have "euler_loop_fl f t0 h (py_range 0 (int (nat (1 + py_int q)))) (t0, x0, [(t0, x0)]) =
     Inr (if nat (1 + py_int q) = 0 then t0 else euler_time_fl t0 h (nat (1 + py_int q) - 1),
          euler_updates_fl f t0 h x0 (nat (1 + py_int q)),
          (t0, x0) # map (\<lambda>k. (euler_time_fl t0 h k, euler_updates_fl f t0 h x0 (Suc k)))
                       [0..<nat (1 + py_int q)])"
    by (rule euler_loop_fl_closed)
  moreover have "py_range 0 (1 + py_int q) = py_range 0 (int (nat (1 + py_int q)))"
    by (rule py_range_nat)
  ultimately show ?thesis
    using assms by (simp add: euler_fl_def float_truediv_def)
qed


lemma euler_fl_infinite:
  assumes "h \<noteq> Fin 0" "fdiv (fsub t1 t0) h = PInf \<or> fdiv (fsub t1 t0) h = NInf"
  shows "euler_fl f t0 x0 t1 h = Inl OverflowError"
  using assms by (auto simp: euler_fl_def float_truediv_def)


lemma quotient_nonneg:
  assumes "0 < h" "t0 \<le> t1"
  shows "fdiv (fsub (Fin t1) (Fin t0)) (Fin h) = PInf
     \<or> (\<exists>q\<ge>0. fdiv (fsub (Fin t1) (Fin t0)) (Fin h) = Fin q)"
proof -
  have "0 \<le> t1 - t0" using assms by simp
  from round64_nonneg [OF this]
  consider "round64 (t1 - t0) = PInf" | r where "0 \<le> r" "round64 (t1 - t0) = Fin r"
    by blast
  then show ?thesis
  proof cases
    case 1
    then show ?thesis using assms by (simp add: fsub_def)
  next
    case 2
    then have "0 \<le> r / h" using assms by simp
    from round64_nonneg [OF this] show ?thesis
      using 2 by (simp add: fsub_def)
  qed
qed

lemma quotient_overflow:
  "fdiv (fsub (Fin (2 ^ 1023)) (Fin 0)) (Fin (1 / 2)) = PInf"
proof -
  have "fsub (Fin (2 ^ 1023)) (Fin 0) = Fin (2 ^ 1023)"
    using round64_2_1023 by (simp add: fsub_def)
  moreover have "round64 (2 ^ 1023 / (1 / 2)) = PInf"
    by (simp add: round64_binade [where p = 2046] round_half_even_def)
  ultimately show ?thesis by simp
qed

lemma last_cons_map_upt: "last (x # map g [0..<Suc n]) = g n"
  by simp

section \<open>The claims\<close>

subsection \<open>Claim C1\<close>

text \<open>
  Claim C1 says that the \<open>k\<close>-th pair of the trajectory is \<open>(t\<^sub>k, x\<^sub>k)\<close> with
  \<open>t\<^sub>k = t0 + k h\<close>. The loop computes the states \<open>x\<^sub>k\<close> by the update rule, but it
  appends the new state together with the time of the state it started from. For the
  constant derivative \<open>1\<close>, from \<open>x0 = 0\<close> at \<open>t0 = 0\<close> to \<open>t1 = 1\<close> with \<open>h = 1\<close>, the
  trajectory of the code is \<open>(0, 0), (0, 1), (1, 2)\<close>, not \<open>(0, 0), (1, 1), (2, 2)\<close>.
\<close>

theorem euler_pairs_time_with_next_state:
  "euler (\<lambda>t x. 1) 0 (0::real) 1 1 = Inr [(0, 0), (0, 1), (1, 2)]
   \<and> euler (\<lambda>t x. 1) 0 (0::real) 1 1 \<noteq> Inr [(0, 0), (1, 1), (2, 2)]"
  by (simp add: euler_def py_truediv_def py_int_def py_range_def upto.simps euler_body_def)

subsection \<open>Claim C2\<close>

text \<open>
  Claim C2 says that the four compartments add up to \<open>1\<close> at every step, exactly in exact
  arithmetic and within a bounded drift in floating point, for every valid parameter set.
  The second half fails. With \<open>gamma = 2\<^sup>6\<^sup>0\<close>, \<open>beta = alpha = 1\<close>, \<open>E0 = 0\<close>, \<open>I0 = 1\<close>,
  \<open>days = 1\<close> and \<open>step = 2\<close>, a valid parameter set, the first update computes
  \<open>I = 1 - 2\<^sup>6\<^sup>1\<close>, which rounds to \<open>- 2\<^sup>6\<^sup>1\<close>, and \<open>R = 2\<^sup>6\<^sup>1\<close>: the four values of the
  second entry add up to \<open>0\<close>.
\<close>

theorem SEIR_simulation_fl_drift_counterexample:
  "SEIR_simulation_fl (Fin 1) (Fin 1) (Fin (2 ^ 60)) (Fin 0) (Fin 1) 1 (Some (Fin 2)) =
     Inr ([Fin 0, Fin 0],
          [[Fin 0, Fin 0], [Fin 0, Fin 0], [Fin 1, Fin (- (2 ^ 61))], [Fin 0, Fin (2 ^ 61)]])
   \<and> (0 + 0 + - (2 ^ 61) + 2 ^ 61 :: real) = 0"
  by (simp add: SEIR_simulation_fl_def euler_fl_def euler_body_fl_def float_truediv_def
      int_to_float_def fsub_def fvec_add_def fvec_scale_def SEIR_model_fl_def unzip_def
      np_array_fl_def py_range_def upto.simps py_int_def Let_def
      round64_exact_small round64_exact_int
      round64_2_60 round64_m2_60 round64_2_61 round64_m2_61 round64_absorb)

text \<open>
  Claim C2, amended to exact arithmetic. Whenever the step is not zero, the simulation in
  exact arithmetic returns the times and the four sequences of the compartments, all of
  the same length, and at every index \<open>k\<close> the four values add up to \<open>1\<close>. This holds for
  all rates and initial fractions, the valid ones among them.
\<close>

theorem SEIR_simulation_conservation:
  assumes "step_arg \<noteq> Some 0"
  shows "\<exists>ts Ss Es Is Rs.
     SEIR_simulation beta alpha gamma E0 I0 days step_arg = Inr (ts, [Ss, Es, Is, Rs])
     \<and> length Ss = length ts \<and> length Es = length ts
     \<and> length Is = length ts \<and> length Rs = length ts
     \<and> (\<forall>k<length ts. Ss ! k + Es ! k + Is ! k + Rs ! k = 1)"
proof -
  define step where "step = (case step_arg of None \<Rightarrow> 1 / 10 | Some s \<Rightarrow> s)"
  define x0 where "x0 = Vec4 (1 - E0 - I0) E0 I0 0"
  define f where "f = SEIR_model beta alpha gamma"
  define traj where "traj = (0, x0) #
     map (\<lambda>k. (0 + real k * step, euler_updates f 0 step x0 (Suc k)))
       [0..<nat (1 + py_int ((days - 0) / step))]"
  have "step \<noteq> 0"
    using assms by (cases step_arg) (simp_all add: step_def)
  then have e: "euler f 0 x0 days step = Inr traj"
    unfolding traj_def by (rule euler_trajectory)
  have tot: "total (snd (traj ! k)) = 1" if "k < length traj" for k
  proof (cases k)
    case 0
    then show ?thesis by (simp add: traj_def x0_def total_def)
  next
    case (Suc j)
    with that have "j < nat (1 + py_int ((days - 0) / step))"
      by (simp add: traj_def)
    then have "snd (traj ! k) = euler_updates f 0 step x0 (Suc j)"
      unfolding traj_def Suc by (simp del: euler_updates.simps)
    then show ?thesis
      by (simp only: f_def total_euler_updates) (simp add: x0_def total_def)
  qed
  have "SEIR_simulation beta alpha gamma E0 I0 days step_arg =
      Inr (map fst traj,
           [map (\<lambda>p. S_of (snd p)) traj, map (\<lambda>p. E_of (snd p)) traj,
            map (\<lambda>p. I_of (snd p)) traj, map (\<lambda>p. R_of (snd p)) traj])"
    using e by (simp add: SEIR_simulation_unfold step_def x0_def f_def)
  moreover have "\<forall>k<length (map fst traj).
      map (\<lambda>p. S_of (snd p)) traj ! k + map (\<lambda>p. E_of (snd p)) traj ! k
      + map (\<lambda>p. I_of (snd p)) traj ! k + map (\<lambda>p. R_of (snd p)) traj ! k = 1"
    using tot by (simp add: total_def)
  ultimately show ?thesis by simp
qed

theorem SEIR_simulation_conservation_witness:
  "Some 1 \<noteq> Some (0::real)
   \<and> SEIR_simulation 1 1 1 (1 / 4) (1 / 4) 1 (Some 1) =
       Inr ([0, 0, 1],
            [[1 / 2, 3 / 8, 9 / 32], [1 / 4, 1 / 8, 3 / 32], [1 / 4, 1 / 4, 1 / 8], [0, 1 / 4, 1 / 2]])
   \<and> [1 / 2, 3 / 8, 9 / 32] ! 2 + [1 / 4, 1 / 8, 3 / 32] ! 2 + [1 / 4, 1 / 4, 1 / 8] ! 2
       + [0, 1 / 4, 1 / 2] ! 2 = (1::real)"
proof -
  have h: "Some 1 \<noteq> Some (0::real)" by simp
  have e: "SEIR_simulation 1 1 1 (1 / 4) (1 / 4) 1 (Some 1) =
       Inr ([0, 0, 1],
            [[1 / 2, 3 / 8, 9 / 32], [1 / 4, 1 / 8, 3 / 32], [1 / 4, 1 / 4, 1 / 8], [0, 1 / 4, 1 / 2]])"
    by (simp add: SEIR_simulation_def euler_def py_truediv_def py_int_def py_range_def upto.simps
      euler_body_def Let_def SEIR_model_def plus_vec4_def scaleR_vec4_def unzip_def np_array_def)
  from SEIR_simulation_conservation [OF h, of 1 1 1 "1 / 4" "1 / 4" 1]
  obtain ts Ss Es Is Rs where
    r: "SEIR_simulation 1 1 1 (1 / 4) (1 / 4) 1 (Some 1) = Inr (ts, [Ss, Es, Is, Rs])"
    and s: "\<forall>k<length ts. Ss ! k + Es ! k + Is ! k + Rs ! k = 1"
    by blast
  from r e have "ts = [0, 0, 1]" "Ss = [1 / 2, 3 / 8, 9 / 32]" "Es = [1 / 4, 1 / 8, 3 / 32]"
    "Is = [1 / 4, 1 / 4, 1 / 8]" "Rs = [0, 1 / 4, 1 / 2]"
    by simp_all
  with s have "[1 / 2, 3 / 8, 9 / 32] ! 2 + [1 / 4, 1 / 8, 3 / 32] ! 2 + [1 / 4, 1 / 4, 1 / 8] ! 2
       + [0, 1 / 4, 1 / 2] ! 2 = (1::real)"
    by simp
  with h e show ?thesis by (simp only: simp_thms)
qed

subsection \<open>Claim C3\<close>

text \<open>
  Claim C3 says that for \<open>t1 > 0\<close> and \<open>h > 0\<close> the integrator started at time \<open>0\<close> returns
  exactly \<open>2 + \<lfloor>t1 / h\<rfloor>\<close> entries. The loop bound is taken from the floating-point
  quotient. For \<open>t1 = 1\<close> and \<open>h\<close> the float \<open>0.1\<close> the quotient rounds up to \<open>10\<close> and the
  trajectory has \<open>12\<close> entries, where the exact quotient gives \<open>11\<close>. For \<open>t1 = 2\<^sup>1\<^sup>0\<^sup>2\<^sup>3\<close>
  and \<open>h = 1/2\<close> the quotient overflows and the call raises \<^verbatim>\<open>OverflowError\<close>.
\<close>

theorem euler_fl_entries_counterexample:
  "map_sum id length
     (euler_fl (SEIR_model_fl (Fin 1) (Fin 1) (Fin 1)) (Fin 0)
        (FVec4 (Fin (1 / 2)) (Fin (1 / 4)) (Fin (1 / 4)) (Fin 0)) (Fin 1) default_step) = Inr 12
   \<and> 2 + \<lfloor>1 / (3602879701896397 / 2 ^ 55 :: real)\<rfloor> = 11
   \<and> euler_fl (SEIR_model_fl (Fin 1) (Fin 1) (Fin 1)) (Fin 0)
        (FVec4 (Fin (1 / 2)) (Fin (1 / 4)) (Fin (1 / 4)) (Fin 0)) (Fin (2 ^ 1023)) (Fin (1 / 2))
      = Inl OverflowError"
proof -
  have q: "fdiv (fsub (Fin 1) (Fin 0)) default_step = Fin 10"
    by (simp add: fsub_def default_step_def round64_exact_int round64_tenth_quotient)
  have h: "default_step \<noteq> Fin 0" by (simp add: default_step_def)
  have 1: "map_sum id length
     (euler_fl (SEIR_model_fl (Fin 1) (Fin 1) (Fin 1)) (Fin 0)
        (FVec4 (Fin (1 / 2)) (Fin (1 / 4)) (Fin (1 / 4)) (Fin 0)) (Fin 1) default_step) = Inr 12"
    by (simp add: euler_fl_trajectory [OF h q] py_int_def)
  have 2: "2 + \<lfloor>1 / (3602879701896397 / 2 ^ 55 :: real)\<rfloor> = 11"
    by simp
  have 3: "euler_fl (SEIR_model_fl (Fin 1) (Fin 1) (Fin 1)) (Fin 0)
        (FVec4 (Fin (1 / 2)) (Fin (1 / 4)) (Fin (1 / 4)) (Fin 0)) (Fin (2 ^ 1023)) (Fin (1 / 2))
      = Inl OverflowError"
    by (rule euler_fl_infinite) (simp_all only: quotient_overflow pyfloat.inject, simp)
  from 1 2 3 show ?thesis by (simp only: simp_thms)
qed

text \<open>
  Claim C3, amended. Let \<open>t1 > 0\<close> be a float and \<open>h > 0\<close>, and let \<open>q\<close> be the correctly
  rounded quotient \<open>t1 / h\<close>. Either \<open>q\<close> is finite, and then the integrator started at time
  \<open>0\<close> returns a trajectory of exactly \<open>2 + \<lfloor>q\<rfloor>\<close> entries; or \<open>q\<close> is infinite, and then
  the call raises \<^verbatim>\<open>OverflowError\<close>.
\<close>

theorem euler_fl_trajectory_length:
  assumes "round64 t1 = Fin t1" "0 < t1" "0 < h"
  shows "(\<exists>q\<ge>0. round64 (t1 / h) = Fin q
            \<and> (\<exists>traj. euler_fl f (Fin 0) x0 (Fin t1) (Fin h) = Inr traj
                  \<and> int (length traj) = 2 + \<lfloor>q\<rfloor>))
     \<or> (round64 (t1 / h) = PInf
          \<and> euler_fl f (Fin 0) x0 (Fin t1) (Fin h) = Inl OverflowError)"
proof -
  have h: "Fin h \<noteq> Fin 0" using assms(3) by simp
  have quo: "fdiv (fsub (Fin t1) (Fin 0)) (Fin h) = round64 (t1 / h)"
    using assms(1) by (simp add: fsub_def)
  have "0 \<le> t1 / h" using assms by simp
  from round64_nonneg [OF this]
  consider "round64 (t1 / h) = PInf" | q where "0 \<le> q" "round64 (t1 / h) = Fin q"
    by auto
  then show ?thesis
  proof cases
    case 1
    then show ?thesis using euler_fl_infinite [OF h, of "Fin t1" "Fin 0" f x0] quo by simp
  next
    case 2
    from \<open>0 \<le> q\<close> have "0 \<le> \<lfloor>q\<rfloor>" by simp
    then have "int (length ((Fin 0, x0) #
        map (\<lambda>k. (euler_time_fl (Fin 0) (Fin h) k, euler_updates_fl f (Fin 0) (Fin h) x0 (Suc k)))
          [0..<nat (1 + py_int q)])) = 2 + \<lfloor>q\<rfloor>"
      using \<open>0 \<le> q\<close> by (simp add: py_int_nonneg)
    moreover have "fdiv (fsub (Fin t1) (Fin 0)) (Fin h) = Fin q"
      using quo 2 by simp
    ultimately show ?thesis
      using 2 euler_fl_trajectory [OF h, of "Fin t1" "Fin 0" q f x0] by auto
  qed
qed

theorem euler_fl_trajectory_length_witness:
  "round64 1 = Fin 1 \<and> (0::real) < 1 \<and> (0::real) < 3602879701896397 / 2 ^ 55
   \<and> round64 (1 / (3602879701896397 / 2 ^ 55)) = Fin 10
   \<and> (\<exists>traj. euler_fl (SEIR_model_fl (Fin 1) (Fin 1) (Fin 1)) (Fin 0)
                (FVec4 (Fin (1 / 2)) (Fin (1 / 4)) (Fin (1 / 4)) (Fin 0)) (Fin 1)
                (Fin (3602879701896397 / 2 ^ 55)) = Inr traj
          \<and> int (length traj) = 12)"
proof -
  have h: "round64 1 = Fin 1" "(0::real) < 1" "(0::real) < 3602879701896397 / 2 ^ 55"
    by (simp_all add: round64_exact_int)
  have q: "round64 (1 / (3602879701896397 / 2 ^ 55)) = Fin 10"
    by (simp add: round64_tenth_quotient)
  from euler_fl_trajectory_length [OF h,
      of "SEIR_model_fl (Fin 1) (Fin 1) (Fin 1)" "FVec4 (Fin (1 / 2)) (Fin (1 / 4)) (Fin (1 / 4)) (Fin 0)"]
  show ?thesis using h q by auto
qed

subsection \<open>Claim C4\<close>

text \<open>
  Claim C4 says that the last emitted time is at least \<open>t1\<close>, and that for \<open>t0 = 0\<close>,
  \<open>t1 = 10\<close>, \<open>h = 3\<close> the emitted times are \<open>0, 3, 6, 9, 12\<close>. For every derivative
  function and initial state, the times the code emits on this input are
  \<open>0, 0, 3, 6, 9\<close>: the last one is \<open>9\<close>, before \<open>t1\<close>.
\<close>

theorem euler_times_10_3:
  "map_sum id (map fst) (euler f 0 x0 10 3) = Inr [0, 0, 3, 6, 9]"
  by (simp add: euler_def py_truediv_def py_int_def py_range_def upto.simps euler_body_def Let_def)

subsection \<open>Claim C5\<close>

text \<open>
  Claim C5 says that consecutive times of a trajectory differ by exactly \<open>h\<close>. For
  \<open>t0 = 0\<close>, \<open>t1 = 1\<close>, \<open>h = 1/2\<close> the times the code emits are \<open>0, 0, 1/2, 1\<close>: the
  first two are equal.
\<close>

theorem euler_times_repeat_start:
  "map_sum id (map fst) (euler f 0 x0 1 (1 / 2)) = Inr [0, 0, 1 / 2, 1]"
  by (simp add: euler_def py_truediv_def py_int_def py_range_def upto.simps euler_body_def Let_def)

subsection \<open>Claim C6\<close>

text \<open>
  Claim C6. For all rates and every input state, the model function returns the four
  derivatives \<open>- beta S I\<close>, \<open>beta S I - alpha E\<close>, \<open>alpha E - gamma I\<close> and \<open>gamma I\<close>, and
  the four components of its result sum to zero.
\<close>

theorem SEIR_model_sum_zero:
  "SEIR_model beta alpha gamma t (Vec4 S E I R) =
     Vec4 (- beta * S * I) (beta * S * I - alpha * E) (alpha * E - gamma * I) (gamma * I)
   \<and> S_of (SEIR_model beta alpha gamma t x) + E_of (SEIR_model beta alpha gamma t x)
       + I_of (SEIR_model beta alpha gamma t x) + R_of (SEIR_model beta alpha gamma t x) = 0"
  by (cases x) (simp add: SEIR_model_def)

subsection \<open>Claim C7\<close>

text \<open>
  Claim C7. The simulation of the source computes what its contract says: it agrees with
  \<open>simulate_spec\<close> on every input, also when the step is zero and the integrator fails.
\<close>

theorem SEIR_simulation_refines_spec:
  "SEIR_simulation beta alpha gamma E0 I0 days step_arg =
     simulate_spec beta alpha gamma E0 I0 days step_arg"
  by (simp add: SEIR_simulation_unfold simulate_spec_def)

subsection \<open>Claim C8\<close>




subsection \<open>Claim C9\<close>



subsection \<open>Claim C10\<close>

text \<open>
  Claim C10 is stated for every call with \<open>h > 0\<close>. It fails in three ways. When the end
  time lies before the start time, as for \<open>t0 = 0\<close>, \<open>t1 = - 1\<close>, \<open>h = 1\<close>, the loop does not
  run and the trajectory has the initial entry only, whose time exceeds \<open>t1\<close>. When the
  product \<open>k h\<close> rounds up, the last time exceeds \<open>t1\<close>: for \<open>t0 = 0\<close> and the floats
  \<open>t1 = 1.7\<close> and \<open>h = 0.1\<close> the quotient rounds to \<open>17\<close> and \<open>17 h\<close> rounds to the float
  after \<open>1.7\<close>. When the quotient overflows, the call raises.
\<close>

theorem euler_fl_last_time_counterexample:
  "euler_fl (SEIR_model_fl (Fin 1) (Fin 1) (Fin 1)) (Fin 0)
      (FVec4 (Fin (1 / 2)) (Fin (1 / 4)) (Fin (1 / 4)) (Fin 0)) (Fin (- 1)) (Fin 1)
     = Inr [(Fin 0, FVec4 (Fin (1 / 2)) (Fin (1 / 4)) (Fin (1 / 4)) (Fin 0))]
   \<and> map_sum id (fst \<circ> last)
       (euler_fl (SEIR_model_fl (Fin 1) (Fin 1) (Fin 1)) (Fin 0)
          (FVec4 (Fin (1 / 2)) (Fin (1 / 4)) (Fin (1 / 4)) (Fin 0))
          (Fin (7656119366529843 / 2 ^ 52)) default_step)
     = Inr (Fin (7656119366529844 / 2 ^ 52))
   \<and> \<not> (7656119366529844 / 2 ^ 52 :: real) \<le> 7656119366529843 / 2 ^ 52
   \<and> euler_fl (SEIR_model_fl (Fin 1) (Fin 1) (Fin 1)) (Fin 0)
        (FVec4 (Fin (1 / 2)) (Fin (1 / 4)) (Fin (1 / 4)) (Fin 0)) (Fin (2 ^ 1023)) (Fin (1 / 2))
      = Inl OverflowError"
proof -
  have h1: "Fin 1 \<noteq> Fin 0" by simp
  have q1: "fdiv (fsub (Fin (- 1)) (Fin 0)) (Fin 1) = Fin (- 1)"
    by (simp add: fsub_def round64_exact_int)
  have 1: "euler_fl (SEIR_model_fl (Fin 1) (Fin 1) (Fin 1)) (Fin 0)
      (FVec4 (Fin (1 / 2)) (Fin (1 / 4)) (Fin (1 / 4)) (Fin 0)) (Fin (- 1)) (Fin 1)
     = Inr [(Fin 0, FVec4 (Fin (1 / 2)) (Fin (1 / 4)) (Fin (1 / 4)) (Fin 0))]"
    by (simp add: euler_fl_trajectory [OF h1 q1] py_int_def ceiling_def)
  have h2: "default_step \<noteq> Fin 0" by (simp add: default_step_def)
  have q2: "fdiv (fsub (Fin (7656119366529843 / 2 ^ 52)) (Fin 0)) default_step = Fin 17"
    by (simp add: fsub_def default_step_def round64_exact_small quotient_17)
  have t: "euler_time_fl (Fin 0) default_step 17 = Fin (7656119366529844 / 2 ^ 52)"
    by (simp add: euler_time_fl_def default_step_def round64_exact_int round64_17_tenths
        round64_exact_small)
  have e: "euler_fl (SEIR_model_fl (Fin 1) (Fin 1) (Fin 1)) (Fin 0)
          (FVec4 (Fin (1 / 2)) (Fin (1 / 4)) (Fin (1 / 4)) (Fin 0))
          (Fin (7656119366529843 / 2 ^ 52)) default_step
     = Inr ((Fin 0, FVec4 (Fin (1 / 2)) (Fin (1 / 4)) (Fin (1 / 4)) (Fin 0)) #
            map (\<lambda>k. (euler_time_fl (Fin 0) default_step k,
                      euler_updates_fl (SEIR_model_fl (Fin 1) (Fin 1) (Fin 1)) (Fin 0) default_step
                        (FVec4 (Fin (1 / 2)) (Fin (1 / 4)) (Fin (1 / 4)) (Fin 0)) (Suc k)))
              [0..<nat (1 + py_int 17)])"
    by (rule euler_fl_trajectory [OF h2 q2])
  have n: "nat (1 + py_int 17) = Suc 17" by (simp add: py_int_def)
  have 2: "map_sum id (fst \<circ> last)
       (euler_fl (SEIR_model_fl (Fin 1) (Fin 1) (Fin 1)) (Fin 0)
          (FVec4 (Fin (1 / 2)) (Fin (1 / 4)) (Fin (1 / 4)) (Fin 0))
          (Fin (7656119366529843 / 2 ^ 52)) default_step)
     = Inr (Fin (7656119366529844 / 2 ^ 52))"
    unfolding e n by (simp only: map_sum.simps comp_apply last_cons_map_upt fst_conv t)
  have 3: "\<not> (7656119366529844 / 2 ^ 52 :: real) \<le> 7656119366529843 / 2 ^ 52"
    by simp
  have 4: "euler_fl (SEIR_model_fl (Fin 1) (Fin 1) (Fin 1)) (Fin 0)
        (FVec4 (Fin (1 / 2)) (Fin (1 / 4)) (Fin (1 / 4)) (Fin 0)) (Fin (2 ^ 1023)) (Fin (1 / 2))
      = Inl OverflowError"
    by (rule euler_fl_infinite) (simp_all only: quotient_overflow pyfloat.inject, simp)
  from 1 2 3 4 show ?thesis by (simp only: simp_thms)
qed

text \<open>
  Claim C10, amended. Let \<open>t0\<close> be a float, \<open>h > 0\<close> and \<open>t0 \<le> t1\<close>, and let the
  floating-point quotient \<open>q\<close> of \<open>t1 - t0\<close> by \<open>h\<close> be finite. Then the trajectory has
  \<open>2 + \<lfloor>q\<rfloor>\<close> entries; the entry appended at iteration \<open>k\<close> pairs the time \<open>t0 + k h\<close>, as
  the loop rounds it, with the state after \<open>k + 1\<close> updates; the first two entries both
  carry the time \<open>t0\<close>; and the time of the last entry is the rounded \<open>t0 + \<lfloor>q\<rfloor> h\<close>.
  Nothing is said about how that time compares with \<open>t1\<close>.
\<close>

theorem euler_fl_time_state_pairing:
  assumes "round64 t0 = Fin t0" "0 < h" "t0 \<le> t1"
    and "fdiv (fsub (Fin t1) (Fin t0)) (Fin h) = Fin q"
  shows "\<exists>traj. euler_fl f (Fin t0) x0 (Fin t1) (Fin h) = Inr traj
     \<and> length traj = nat \<lfloor>q\<rfloor> + 2
     \<and> (\<forall>k\<le>nat \<lfloor>q\<rfloor>.
           traj ! Suc k =
             (euler_time_fl (Fin t0) (Fin h) k, euler_updates_fl f (Fin t0) (Fin h) x0 (Suc k)))
     \<and> fst (traj ! 0) = Fin t0 \<and> fst (traj ! 1) = Fin t0
     \<and> fst (last traj) = euler_time_fl (Fin t0) (Fin h) (nat \<lfloor>q\<rfloor>)"
proof -
  define n where "n = nat \<lfloor>q\<rfloor>"
  define g where
    "g = (\<lambda>k. (euler_time_fl (Fin t0) (Fin h) k, euler_updates_fl f (Fin t0) (Fin h) x0 (Suc k)))"
  define traj where "traj = (Fin t0, x0) # map g [0..<Suc n]"
  have h: "Fin h \<noteq> Fin 0" using assms(2) by simp
  from quotient_nonneg [OF assms(2,3)] assms(4) have q0: "0 \<le> q" by auto
  then have "0 \<le> \<lfloor>q\<rfloor>" by simp
  then have "nat (1 + py_int q) = Suc n"
    using q0 by (simp add: py_int_nonneg n_def nat_add_distrib)
  then have e: "euler_fl f (Fin t0) x0 (Fin t1) (Fin h) = Inr traj"
    using euler_fl_trajectory [OF h assms(4), of f x0] by (simp add: traj_def g_def)
  have len: "length traj = n + 2" by (simp add: traj_def)
  have nth: "traj ! Suc k = g k" if "k \<le> n" for k
    using that unfolding traj_def by (simp del: upt_Suc)
  have "last traj = g n" by (simp add: traj_def)
  then have lt: "fst (last traj) = euler_time_fl (Fin t0) (Fin h) n"
    by (simp add: g_def)
  have "euler_time_fl (Fin t0) (Fin h) 0 = Fin t0"
    using assms(1) by (simp add: euler_time_fl_def)
  then have t1: "fst (traj ! 1) = Fin t0"
    using nth [of 0] by (simp add: g_def)
  have t0: "fst (traj ! 0) = Fin t0" by (simp add: traj_def)
  show ?thesis
    using e len nth lt t0 t1 unfolding g_def n_def by blast
qed

theorem euler_fl_time_state_pairing_witness:
  "round64 0 = Fin 0 \<and> (0::real) < 1 \<and> (0::real) \<le> 1
   \<and> fdiv (fsub (Fin 1) (Fin 0)) (Fin 1) = Fin 1
   \<and> (\<exists>traj. euler_fl (SEIR_model_fl (Fin 1) (Fin 1) (Fin 1)) (Fin 0)
                (FVec4 (Fin (1 / 2)) (Fin (1 / 4)) (Fin (1 / 4)) (Fin 0)) (Fin 1) (Fin 1) = Inr traj
          \<and> length traj = 3
          \<and> traj ! 1 = (Fin 0, FVec4 (Fin (3 / 8)) (Fin (1 / 8)) (Fin (1 / 4)) (Fin (1 / 4)))
          \<and> traj ! 2 = (Fin 1, FVec4 (Fin (9 / 32)) (Fin (3 / 32)) (Fin (1 / 8)) (Fin (1 / 2)))
          \<and> fst (traj ! 0) = Fin 0 \<and> fst (traj ! 1) = Fin 0 \<and> fst (last traj) = Fin 1)"
proof -
  have h: "round64 0 = Fin 0" "(0::real) < 1" "(0::real) \<le> 1" by simp_all
  have q: "fdiv (fsub (Fin 1) (Fin 0)) (Fin 1) = Fin 1"
    by (simp add: fsub_def round64_exact_int)
  have t: "euler_time_fl (Fin 0) (Fin 1) 0 = Fin 0" "euler_time_fl (Fin 0) (Fin 1) 1 = Fin 1"
    "euler_time_fl (Fin 0) (Fin 1) (Suc 0) = Fin 1"
    by (simp_all add: euler_time_fl_def round64_exact_int)
  have x1: "euler_updates_fl (SEIR_model_fl (Fin 1) (Fin 1) (Fin 1)) (Fin 0) (Fin 1)
       (FVec4 (Fin (1 / 2)) (Fin (1 / 4)) (Fin (1 / 4)) (Fin 0)) (Suc 0)
     = FVec4 (Fin (3 / 8)) (Fin (1 / 8)) (Fin (1 / 4)) (Fin (1 / 4))"
    by (simp add: SEIR_model_fl_def fvec_add_def fvec_scale_def fsub_def
        round64_exact_small round64_exact_int)
  have x2: "euler_updates_fl (SEIR_model_fl (Fin 1) (Fin 1) (Fin 1)) (Fin 0) (Fin 1)
       (FVec4 (Fin (1 / 2)) (Fin (1 / 4)) (Fin (1 / 4)) (Fin 0)) (Suc (Suc 0))
     = FVec4 (Fin (9 / 32)) (Fin (3 / 32)) (Fin (1 / 8)) (Fin (1 / 2))"
    by (simp add: SEIR_model_fl_def fvec_add_def fvec_scale_def fsub_def
        round64_exact_small round64_exact_int)
  from euler_fl_time_state_pairing [OF h q,
      of "SEIR_model_fl (Fin 1) (Fin 1) (Fin 1)" "FVec4 (Fin (1 / 2)) (Fin (1 / 4)) (Fin (1 / 4)) (Fin 0)"]
  obtain traj where
    e: "euler_fl (SEIR_model_fl (Fin 1) (Fin 1) (Fin 1)) (Fin 0)
          (FVec4 (Fin (1 / 2)) (Fin (1 / 4)) (Fin (1 / 4)) (Fin 0)) (Fin 1) (Fin 1) = Inr traj"
    and len: "length traj = nat \<lfloor>1::real\<rfloor> + 2"
    and nth: "\<forall>k\<le>nat \<lfloor>1::real\<rfloor>. traj ! Suc k =
          (euler_time_fl (Fin 0) (Fin 1) k,
           euler_updates_fl (SEIR_model_fl (Fin 1) (Fin 1) (Fin 1)) (Fin 0) (Fin 1)
             (FVec4 (Fin (1 / 2)) (Fin (1 / 4)) (Fin (1 / 4)) (Fin 0)) (Suc k))"
    and t0: "fst (traj ! 0) = Fin 0" "fst (traj ! 1) = Fin 0"
    and lt: "fst (last traj) = euler_time_fl (Fin 0) (Fin 1) (nat \<lfloor>1::real\<rfloor>)"
    by blast
  from nth have "traj ! Suc 0 = (euler_time_fl (Fin 0) (Fin 1) 0,
           euler_updates_fl (SEIR_model_fl (Fin 1) (Fin 1) (Fin 1)) (Fin 0) (Fin 1)
             (FVec4 (Fin (1 / 2)) (Fin (1 / 4)) (Fin (1 / 4)) (Fin 0)) (Suc 0))"
    by simp
  then have n1: "traj ! 1 = (Fin 0, FVec4 (Fin (3 / 8)) (Fin (1 / 8)) (Fin (1 / 4)) (Fin (1 / 4)))"
    by (simp only: t x1 One_nat_def)
  from nth have "traj ! Suc (Suc 0) = (euler_time_fl (Fin 0) (Fin 1) (Suc 0),
           euler_updates_fl (SEIR_model_fl (Fin 1) (Fin 1) (Fin 1)) (Fin 0) (Fin 1)
             (FVec4 (Fin (1 / 2)) (Fin (1 / 4)) (Fin (1 / 4)) (Fin 0)) (Suc (Suc 0)))"
    by simp
  then have n2: "traj ! 2 = (Fin 1, FVec4 (Fin (9 / 32)) (Fin (3 / 32)) (Fin (1 / 8)) (Fin (1 / 2)))"
    by (simp only: numeral_2_eq_2 x2 t)
  from len have len3: "length traj = 3" by simp
  from lt t(2) have l: "fst (last traj) = Fin 1" by simp
  from h q e len3 n1 n2 t0 l show ?thesis by blast
qed

end
